theory Spec2Isabelle
  imports Complex_Main "HOL-Library.Multiset" "HOL-Library.Char_ord" "HOL-Library.List_Lexorder"
begin

section \<open>JavaScript strings and numbers, as far as the analyzer uses them\<close>

text \<open>
  Strings are byte lists. \<open>toLowerCase\<close>, \<open>trim\<close> and the default order of
  \<open>Array.prototype.sort\<close> are modelled on their ASCII behaviour: bytes outside ASCII are
  left alone by \<open>toLowerCase\<close> and are never blank.
\<close>

definition toLowerCase_char :: "char \<Rightarrow> char" where
  "toLowerCase_char c =
     (case map_of (zip ''ABCDEFGHIJKLMNOPQRSTUVWXYZ'' ''abcdefghijklmnopqrstuvwxyz'') c of
        Some d \<Rightarrow> d
      | None \<Rightarrow> c)"

definition toLowerCase :: "string \<Rightarrow> string" where
  "toLowerCase s = map toLowerCase_char s"

definition is_space :: "char \<Rightarrow> bool" where
  "is_space c = (c \<in> set [CHR '' '', CHR 0x09, CHR 0x0A, CHR 0x0B, CHR 0x0C, CHR 0x0D])"

definition trim :: "string \<Rightarrow> string" where
  "trim s = rev (dropWhile is_space (rev (dropWhile is_space s)))"

fun startsWith :: "string \<Rightarrow> string \<Rightarrow> bool" where
  "startsWith s [] = True"
| "startsWith [] (p # ps) = False"
| "startsWith (c # cs) (p # ps) = (c = p \<and> startsWith cs ps)"

text \<open>\<open>s.includes(sub)\<close>: \<open>sub\<close> occurs in \<open>s\<close> as a contiguous run.\<close>

fun str_includes :: "string \<Rightarrow> string \<Rightarrow> bool" where
  "str_includes [] sub = (sub = [])"
| "str_includes (c # cs) sub = (startsWith (c # cs) sub \<or> str_includes cs sub)"

text \<open>\<open>parts.join(sep)\<close>.\<close>

fun join :: "string \<Rightarrow> string list \<Rightarrow> string" where
  "join sep [] = []"
| "join sep [x] = x"
| "join sep (x # y # ys) = x @ sep @ join sep (y # ys)"

text \<open>\<open>s.split(":")\<close>: the fields between the colons, always at least one.\<close>

fun split_colon :: "string \<Rightarrow> string list" where
  "split_colon [] = [[]]"
| "split_colon (c # cs) =
     (if c = CHR '':'' then [] # split_colon cs
      else (case split_colon cs of
              f # fs \<Rightarrow> (c # f) # fs
            | [] \<Rightarrow> [[c]]))"

text \<open>
  Numbers are rationals: the arithmetic of the analyzer stays within small integers and
  halves, where doubles are exact. \<open>None\<close> stands for a value that is not finite
  (\<open>NaN\<close>, \<open>Infinity\<close>).

  \<open>Number(s)\<close> on a string follows the numeral grammar of the language: blanks around
  the literal are dropped and the empty string is \<open>0\<close>; an unsigned literal may carry a
  radix prefix (\<open>0x\<close>, \<open>0o\<close>, \<open>0b\<close>); a decimal literal may carry a sign, a fraction
  and an exponent. Everything else, \<open>Infinity\<close> included, is not finite.
\<close>

definition is_digit :: "char \<Rightarrow> bool" where
  "is_digit c = (c \<in> set ''0123456789'')"

definition digit_val :: "char \<Rightarrow> nat" where
  "digit_val c =
     (case map_of (zip ''0123456789abcdefABCDEF''
                     [0, 1, 2, 3, 4, 5, 6, 7, 8, 9, 10, 11, 12, 13, 14, 15, 10, 11, 12, 13, 14, 15]) c of
        Some d \<Rightarrow> d
      | None \<Rightarrow> 0)"

definition radix_val :: "nat \<Rightarrow> string \<Rightarrow> nat" where
  "radix_val base s = foldl (\<lambda>n c. base * n + digit_val c) 0 s"

definition dec_val :: "string \<Rightarrow> nat" where
  "dec_val s = radix_val 10 s"

text \<open>The literal after \<open>0x\<close>, \<open>0o\<close> or \<open>0b\<close>: at least one digit of the radix.\<close>

definition radix_literal :: "char \<Rightarrow> string \<Rightarrow> rat option" where
  "radix_literal x ds =
     (let digits = (if x \<in> set ''xX'' then ''0123456789abcdefABCDEF''
                    else if x \<in> set ''oO'' then ''01234567'' else ''01'');
          base = (if x \<in> set ''xX'' then 16 else if x \<in> set ''oO'' then 8 else 2)
      in if ds \<noteq> [] \<and> list_all (\<lambda>c. c \<in> set digits) ds
         then Some (of_nat (radix_val base ds)) else None)"

text \<open>The exponent part that may follow the digits: none, or \<open>e\<close>, an optional sign and
  at least one digit.\<close>

definition exponent_of :: "string \<Rightarrow> int option" where
  "exponent_of r =
     (case r of
        [] \<Rightarrow> Some 0
      | e # t \<Rightarrow>
          (if e \<in> set ''eE''
           then (let negative = (case t of sg # u \<Rightarrow> sg = CHR ''-'' | [] \<Rightarrow> False);
                     ds = (case t of sg # u \<Rightarrow> if sg \<in> set ''+-'' then u else t | [] \<Rightarrow> [])
                 in if ds \<noteq> [] \<and> list_all is_digit ds
                    then Some (if negative then - int (dec_val ds) else int (dec_val ds))
                    else None)
           else None))"

definition unsigned_decimal :: "string \<Rightarrow> rat option" where
  "unsigned_decimal s =
     (let ip = takeWhile is_digit s;
          r = dropWhile is_digit s;
          fp = (case r of c # t \<Rightarrow> if c = CHR ''.'' then takeWhile is_digit t else [] | [] \<Rightarrow> []);
          r2 = (case r of c # t \<Rightarrow> if c = CHR ''.'' then dropWhile is_digit t else r | [] \<Rightarrow> [])
      in if ip = [] \<and> fp = [] then None
         else (case exponent_of r2 of
                 None \<Rightarrow> None
               | Some e \<Rightarrow>
                   Some ((of_nat (dec_val ip) + of_nat (dec_val fp) / 10 ^ length fp) *
                         (if e < 0 then 1 / 10 ^ nat (- e) else 10 ^ nat e))))"

definition Number_str :: "string \<Rightarrow> rat option" where
  "Number_str s =
     (case trim s of
        [] \<Rightarrow> Some 0
      | [c] \<Rightarrow> unsigned_decimal [c]
      | c # x # ds \<Rightarrow>
          (if c = CHR ''0'' \<and> x \<in> set ''xXoObB'' then radix_literal x ds
           else if c = CHR ''+'' then unsigned_decimal (x # ds)
           else if c = CHR ''-'' then map_option uminus (unsigned_decimal (x # ds))
           else unsigned_decimal (c # x # ds)))"

text \<open>\<open>n.toString()\<close> for an integer, in decimal notation.\<close>

fun toString_nat :: "nat \<Rightarrow> string" where
  "toString_nat n =
     (if n < 10 then [''0123456789'' ! n]
      else toString_nat (n div 10) @ [''0123456789'' ! (n mod 10)])"

declare toString_nat.simps [simp del]

definition toString_int :: "int \<Rightarrow> string" where
  "toString_int i = (if i < 0 then CHR ''-'' # toString_nat (nat (- i)) else toString_nat (nat i))"

text \<open>\<open>s.padStart(2, "0")\<close>.\<close>

definition padStart2 :: "string \<Rightarrow> string" where
  "padStart2 s = replicate (2 - length s) CHR ''0'' @ s"

text \<open>The remainder operator \<open>%\<close>: the result has the sign of the dividend.\<close>

definition js_rem :: "int \<Rightarrow> int \<Rightarrow> int" where
  "js_rem a b = sgn a * (\<bar>a\<bar> mod \<bar>b\<bar>)"

section \<open>Shared types\<close>

datatype InteractionSeverity = minor | moderate | major | contraindicated

datatype frequency = Once | Twice | Thrice | FourTimes

record PatientProfile =
  patient_id :: string
  patient_name :: string
  age :: int
  allergies :: "string list"
  conditions :: "string list"
  renalImpairment :: "bool option"
  hepaticImpairment :: "bool option"

record PrescribedMedication =
  name :: string
  dose :: string
  frequencyPerDay :: frequency
  medicationClass :: "string option"

record PrescriptionAnalysisRequest =
  diagnosis :: string
  patient :: PatientProfile
  request_medications :: "PrescribedMedication list"

text \<open>
  \<open>minHoursApart\<close> is an integer in every finding the program builds: the rule table
  holds 4 and 2, and the external path rounds. \<open>alternatives\<close> is the object's
  property list.
\<close>

record InteractionFinding =
  medications :: "string \<times> string"
  severity :: InteractionSeverity
  reason :: string
  canSeparateBySchedule :: bool
  minHoursApart :: "int option"
  alternatives :: "(string \<times> string list) list option"

record ScheduleSlot =
  medication :: string
  times :: "string list"
  slot_note :: "string option"

datatype RecommendationType = keep_and_separate | replace_medication | avoid_combination

record SafetyRecommendation =
  rec_type :: RecommendationType
  title :: string
  details :: string

record PrescriptionAnalysisResult =
  isSafe :: bool
  interactions :: "InteractionFinding list"
  schedule :: "ScheduleSlot list"
  recommendations :: "SafetyRecommendation list"

section \<open>The local analyzer\<close>

subsection \<open>Clock times\<close>

text \<open>
  \<open>parseTime\<close> splits at the colons and reads the first two fields as numbers; a
  missing second field is \<open>undefined\<close> and the sum is \<open>NaN\<close>. The result is kept when
  it is a whole number of minutes, which is all a schedule ever holds (see
  \<open>formatTime_valid\<close> and \<open>optimizeSchedule_valid\<close>); a fractional result is outside
  the model and reads as \<open>None\<close> too.
\<close>

definition parseTime :: "string \<Rightarrow> int option" where
  "parseTime t =
     (case map Number_str (split_colon t) of
        Some hours # Some minutes # _ \<Rightarrow>
          (let total = hours * 60 + minutes
           in if total = of_int \<lfloor>total\<rfloor> then Some \<lfloor>total\<rfloor> else None)
      | _ \<Rightarrow> None)"

definition formatTime :: "int \<Rightarrow> string" where
  "formatTime totalMinutes =
     (let normalized = js_rem (js_rem totalMinutes 1440 + 1440) 1440;
          h = normalized div 60;
          m = js_rem normalized 60
      in padStart2 (toString_int h) @ '':'' @ padStart2 (toString_int m))"

text \<open>
  \<open>timeDiffHours\<close>: \<open>None\<close> is \<open>NaN\<close>, which every arithmetic step hands on.
\<close>

definition timeDiffHours :: "string \<Rightarrow> string \<Rightarrow> rat option" where
  "timeDiffHours a b =
     (case (parseTime a, parseTime b) of
        (Some x, Some y) \<Rightarrow>
          (let diff = \<bar>x - y\<bar>; wrapped = min diff (1440 - diff)
           in Some (of_int wrapped / 60))
      | _ \<Rightarrow> None)"

text \<open>A comparison with \<open>NaN\<close> is false.\<close>

definition num_less :: "rat option \<Rightarrow> rat \<Rightarrow> bool" where
  "num_less d m = (case d of Some v \<Rightarrow> v < m | None \<Rightarrow> False)"

definition allPairsRespectGap :: "string list \<Rightarrow> string list \<Rightarrow> int \<Rightarrow> bool" where
  "allPairsRespectGap timesA timesB minHours =
     list_all (\<lambda>timeA. list_all (\<lambda>timeB. \<not> num_less (timeDiffHours timeA timeB) (of_int minHours)) timesB)
       timesA"

text \<open>
  \<open>shiftTimes\<close>: the shift is a whole number of hours, so \<open>Math.round(hours * 60)\<close> is
  \<open>hours * 60\<close>; \<open>formatTime(NaN)\<close> prints \<open>NaN:NaN\<close>.
\<close>

definition shiftTimes :: "string list \<Rightarrow> int \<Rightarrow> string list" where
  "shiftTimes ts hours =
     (let shiftMinutes = hours * 60
      in map (\<lambda>t. case parseTime t of
                     Some p \<Rightarrow> formatTime (p + shiftMinutes)
                   | None \<Rightarrow> ''NaN:NaN'') ts)"

text \<open>A zero-padded 24-hour time \<open>HH:MM\<close>.\<close>

fun valid_time :: "string \<Rightarrow> bool" where
  "valid_time [h1, h2, c, m1, m2] =
     (is_digit h1 \<and> is_digit h2 \<and> c = CHR '':'' \<and> is_digit m1 \<and> is_digit m2 \<and>
      10 * digit_val h1 + digit_val h2 < 24 \<and> 10 * digit_val m1 + digit_val m2 < 60)"
| "valid_time _ = False"

subsection \<open>Rule base and detection\<close>

record InteractionRule =
  rule_severity :: InteractionSeverity
  rule_reason :: string
  rule_canSeparateBySchedule :: bool
  rule_minHoursApart :: "int option"
  rule_alternatives :: "(string \<times> string list) list option"

definition rules_table :: "(string \<times> InteractionRule) list" where
  "rules_table =
     [(''aspirin::warfarin'',
        \<lparr>rule_severity = major,
         rule_reason = ''Increased bleeding risk from additive anticoagulant effects.'',
         rule_canSeparateBySchedule = False,
         rule_minHoursApart = None,
         rule_alternatives = Some [(''aspirin'', [''clopidogrel'']), (''warfarin'', [''apixaban''])]\<rparr>),
      (''clarithromycin::simvastatin'',
        \<lparr>rule_severity = contraindicated,
         rule_reason = ''Strong CYP3A4 inhibition may increase simvastatin toxicity.'',
         rule_canSeparateBySchedule = False,
         rule_minHoursApart = None,
         rule_alternatives = Some [(''clarithromycin'', [''azithromycin'']),
                                    (''simvastatin'', [''pravastatin'', ''rosuvastatin''])]\<rparr>),
      (''calcium::levothyroxine'',
        \<lparr>rule_severity = moderate,
         rule_reason = ''Calcium reduces levothyroxine absorption.'',
         rule_canSeparateBySchedule = True,
         rule_minHoursApart = Some 4,
         rule_alternatives = Some [(''calcium'', [''vitamin D only (if clinically acceptable)''])]\<rparr>),
      (''ciprofloxacin::iron'',
        \<lparr>rule_severity = moderate,
         rule_reason = ''Iron chelates ciprofloxacin and lowers antibiotic absorption.'',
         rule_canSeparateBySchedule = True,
         rule_minHoursApart = Some 2,
         rule_alternatives = Some [(''ciprofloxacin'', [''doxycycline (if appropriate)''])]\<rparr>)]"

text \<open>\<open>rules[key]\<close>: every key the detector builds holds \<open>::\<close>, so no inherited property answers.\<close>

definition rules :: "string \<Rightarrow> InteractionRule option" where
  "rules key = map_of rules_table key"

fun baseTimes :: "frequency \<Rightarrow> string list" where
  "baseTimes Once = [''08:00'']"
| "baseTimes Twice = [''08:00'', ''20:00'']"
| "baseTimes Thrice = [''08:00'', ''14:00'', ''20:00'']"
| "baseTimes FourTimes = [''06:00'', ''12:00'', ''18:00'', ''22:00'']"

definition toPairKey :: "string \<Rightarrow> string \<Rightarrow> string" where
  "toPairKey a b = join ''::'' (sort [toLowerCase a, toLowerCase b])"

definition buildInitialSchedule :: "PrescribedMedication list \<Rightarrow> ScheduleSlot list" where
  "buildInitialSchedule meds =
     map (\<lambda>med. \<lparr>medication = name med, times = baseTimes (frequencyPerDay med),
                  slot_note = None\<rparr>) meds"

text \<open>
  The two index loops of \<open>detectInteractions\<close> (\<open>i\<close> over the list, \<open>j\<close> over what
  follows \<open>i\<close>): \<open>detect_row a rest\<close> is the inner loop for one \<open>a = medications[i]\<close>.
\<close>

fun detect_row :: "PrescribedMedication \<Rightarrow> PrescribedMedication list \<Rightarrow> InteractionFinding list" where
  "detect_row a [] = []"
| "detect_row a (b # rest) =
     (case rules (toPairKey (name a) (name b)) of
        None \<Rightarrow> detect_row a rest
      | Some rule \<Rightarrow>
          \<lparr>medications = (name a, name b),
           severity = rule_severity rule,
           reason = rule_reason rule,
           canSeparateBySchedule = rule_canSeparateBySchedule rule,
           minHoursApart = rule_minHoursApart rule,
           alternatives = rule_alternatives rule\<rparr> # detect_row a rest)"

fun detectInteractions :: "PrescribedMedication list \<Rightarrow> InteractionFinding list" where
  "detectInteractions [] = []"
| "detectInteractions (a # rest) = detect_row a rest @ detectInteractions rest"

subsection \<open>Schedule optimizer\<close>

text \<open>\<open>updated.find(p)\<close> hands out the first slot that satisfies \<open>p\<close>; its place in the list
  stands for the reference.\<close>

fun findIndex :: "('a \<Rightarrow> bool) \<Rightarrow> 'a list \<Rightarrow> nat option" where
  "findIndex p [] = None"
| "findIndex p (x # xs) = (if p x then Some 0 else map_option Suc (findIndex p xs))"

text \<open>The loop \<open>for (shift = minHoursApart; shift <= 12; shift += 1)\<close>, from \<open>shift\<close> on:
  the first candidate that passes, or \<open>None\<close> when \<open>moved\<close> stays false.\<close>

function search_shift :: "string list \<Rightarrow> string list \<Rightarrow> int \<Rightarrow> int \<Rightarrow> string list option" where
  "search_shift timesA timesB minHours shift =
     (if shift \<le> 12
      then (if allPairsRespectGap timesA (shiftTimes timesB shift) minHours
            then Some (shiftTimes timesB shift)
            else search_shift timesA timesB minHours (shift + 1))
      else None)"
  by pat_completeness auto
termination
  by (relation "measure (\<lambda>(timesA, timesB, minHours, shift). nat (13 - shift))") auto

declare search_shift.simps [simp del]

definition keep_note :: "int \<Rightarrow> string \<Rightarrow> string" where
  "keep_note n med = ''Keep at least '' @ toString_int n @ '' hours apart from '' @ med @ ''.''"

definition shifted_note :: "int \<Rightarrow> string \<Rightarrow> string" where
  "shifted_note n med =
     ''Shifted to maintain '' @ toString_int n @ ''-hour separation from '' @ med @ ''.''"

definition unable_note :: "string \<Rightarrow> string" where
  "unable_note med = ''Unable to safely separate from '' @ med @ '' by schedule alone.''"

text \<open>
  One turn of the loop over the findings. \<open>!finding.minHoursApart\<close> holds for a missing
  value and for 0.
\<close>

definition optimize_finding :: "ScheduleSlot list \<Rightarrow> InteractionFinding \<Rightarrow> ScheduleSlot list" where
  "optimize_finding updated finding =
     (case minHoursApart finding of
        None \<Rightarrow> updated
      | Some gap \<Rightarrow>
          if \<not> canSeparateBySchedule finding \<or> gap = 0 then updated
          else
            (case findIndex (\<lambda>slot. medication slot = fst (medications finding)) updated of
               None \<Rightarrow> updated
             | Some ia \<Rightarrow>
                 (case findIndex (\<lambda>slot. medication slot = snd (medications finding)) updated of
                    None \<Rightarrow> updated
                  | Some ib \<Rightarrow>
                      (let medA = updated ! ia; medB = updated ! ib
                       in if allPairsRespectGap (times medA) (times medB) gap
                          then updated[ib := medB\<lparr>slot_note := Some (keep_note gap (medication medA))\<rparr>]
                          else
                            (case search_shift (times medA) (times medB) gap gap of
                               Some candidate \<Rightarrow>
                                 updated[ib := medB\<lparr>times := candidate,
                                   slot_note := Some (shifted_note gap (medication medA))\<rparr>]
                             | None \<Rightarrow>
                                 updated[ib := medB\<lparr>slot_note :=
                                   Some (unable_note (medication medA))\<rparr>])))))"

text \<open>\<open>optimizeSchedule\<close> copies the schedule and runs the findings over the copy in order.\<close>

definition optimizeSchedule :: "ScheduleSlot list \<Rightarrow> InteractionFinding list \<Rightarrow> ScheduleSlot list" where
  "optimizeSchedule sched findings = foldl optimize_finding sched findings"

subsection \<open>Recommendations and verdict\<close>

text \<open>\<open>a || b\<close> on strings: the empty string gives way.\<close>

definition or_else :: "string \<Rightarrow> string \<Rightarrow> string" where
  "or_else s d = (if s = [] then d else s)"

text \<open>A number read as a condition: a missing value and 0 are false.\<close>

definition truthy :: "'a::zero option \<Rightarrow> bool" where
  "truthy v = (case v of Some n \<Rightarrow> n \<noteq> 0 | None \<Rightarrow> False)"

text \<open>\<open>${finding.minHoursApart}\<close> inside a template string.\<close>

definition template_num :: "int option \<Rightarrow> string" where
  "template_num v = (case v of Some n \<Rightarrow> toString_int n | None \<Rightarrow> ''undefined'')"

definition lookup_alternatives :: "(string \<times> string list) list option \<Rightarrow> string \<Rightarrow> string list" where
  "lookup_alternatives alts med =
     (case alts of
        None \<Rightarrow> []
      | Some table \<Rightarrow> (case map_of table med of None \<Rightarrow> [] | Some xs \<Rightarrow> xs))"

definition recommend :: "InteractionFinding \<Rightarrow> SafetyRecommendation" where
  "recommend finding =
     (let medA = fst (medications finding); medB = snd (medications finding);
          medAAlternatives = lookup_alternatives (alternatives finding) medA;
          medBAlternatives = lookup_alternatives (alternatives finding) medB
      in if severity finding = contraindicated then
           \<lparr>rec_type = avoid_combination,
            title = ''Avoid combining '' @ medA @ '' and '' @ medB,
            details = reason finding @ '' Consider alternatives: '' @
              or_else (join '', '' (medAAlternatives @ medBAlternatives)) ''none listed''\<rparr>
         else if canSeparateBySchedule finding \<and> truthy (minHoursApart finding) then
           \<lparr>rec_type = keep_and_separate,
            title = ''Schedule '' @ medA @ '' and '' @ medB @ '' apart'',
            details = ''Keep at least '' @ template_num (minHoursApart finding) @
              '' hours apart. '' @ reason finding\<rparr>
         else
           \<lparr>rec_type = replace_medication,
            title = ''Replace one medication in '' @ medA @ '' + '' @ medB,
            details = reason finding @ '' Safer options: '' @
              or_else (join '', '' (medAAlternatives @ medBAlternatives))
                ''review formulary alternatives''\<rparr>)"

definition generateRecommendations :: "InteractionFinding list \<Rightarrow> SafetyRecommendation list" where
  "generateRecommendations findings = map recommend findings"

text \<open>\<open>xs.some(p)\<close>, a loop that stops at the first hit.\<close>

fun some :: "('a \<Rightarrow> bool) \<Rightarrow> 'a list \<Rightarrow> bool" where
  "some p [] = False"
| "some p (x # xs) = (if p x then True else some p xs)"

definition analyzePrescription :: "PrescriptionAnalysisRequest \<Rightarrow> PrescriptionAnalysisResult" where
  "analyzePrescription input =
     (let found = detectInteractions (request_medications input);
          sched = optimizeSchedule (buildInitialSchedule (request_medications input)) found;
          recs = generateRecommendations found;
          safe = \<not> some (\<lambda>interaction.
                   severity interaction = contraindicated \<or>
                   (severity interaction = major \<and> \<not> canSeparateBySchedule interaction)) found
      in \<lparr>isSafe = safe, interactions = found, schedule = sched, recommendations = recs\<rparr>)"

section \<open>The external conflict client\<close>

subsection \<open>Decoded payloads\<close>

text \<open>
  A value as \<open>JSON.parse\<close> hands it out. \<open>JNonFinite\<close> is the number a numeral too
  large for a double decodes to. An object is its list of properties, one entry per key.
\<close>

datatype json =
    JNull
  | JBool bool
  | JNum rat
  | JNonFinite
  | JStr string
  | JArr "json list"
  | JObj "(string \<times> json) list"

type_synonym JsonRecord = "(string \<times> json) list"

record ParsedConflict =
  hasConflict :: bool
  parsed_severity :: "InteractionSeverity option"
  parsed_reason :: "string option"
  parsed_canSeparateBySchedule :: "bool option"
  parsed_minHoursApart :: "rat option"

text \<open>\<open>record[key]\<close>; \<open>None\<close> is \<open>undefined\<close>.\<close>

definition get_prop :: "JsonRecord \<Rightarrow> string \<Rightarrow> json option" where
  "get_prop obj key = map_of obj key"

fun asRecord :: "json option \<Rightarrow> JsonRecord option" where
  "asRecord (Some (JObj members)) = Some members"
| "asRecord _ = None"

fun parseBooleanValue :: "json option \<Rightarrow> bool option" where
  "parseBooleanValue (Some (JBool b)) = Some b"
| "parseBooleanValue (Some (JNum n)) =
     (if n = 1 then Some True else if n = 0 then Some False else None)"
| "parseBooleanValue (Some (JStr s)) =
     (let normalized = toLowerCase (trim s)
      in if normalized \<in> set [''true'', ''yes'', ''y'', ''1''] then Some True
         else if normalized \<in> set [''false'', ''no'', ''n'', ''0''] then Some False
         else None)"
| "parseBooleanValue _ = None"

fun readBoolean :: "JsonRecord \<Rightarrow> string list \<Rightarrow> bool option" where
  "readBoolean obj [] = None"
| "readBoolean obj (key # keys) =
     (case parseBooleanValue (get_prop obj key) of
        Some parsed \<Rightarrow> Some parsed
      | None \<Rightarrow> readBoolean obj keys)"

fun readString :: "JsonRecord \<Rightarrow> string list \<Rightarrow> string option" where
  "readString obj [] = None"
| "readString obj (key # keys) =
     (case get_prop obj key of
        Some (JStr v) \<Rightarrow> (if trim v \<noteq> [] then Some (trim v) else readString obj keys)
      | _ \<Rightarrow> readString obj keys)"

fun readNumber :: "JsonRecord \<Rightarrow> string list \<Rightarrow> rat option" where
  "readNumber obj [] = None"
| "readNumber obj (key # keys) =
     (case get_prop obj key of
        Some (JNum v) \<Rightarrow> Some v
      | Some (JStr v) \<Rightarrow>
          (case Number_str v of Some parsed \<Rightarrow> Some parsed | None \<Rightarrow> readNumber obj keys)
      | _ \<Rightarrow> readNumber obj keys)"

definition parseBooleanFromText :: "string \<Rightarrow> bool option" where
  "parseBooleanFromText str =
     (let normalized = toLowerCase str
      in if str_includes normalized ''low interaction'' \<or>
            str_includes normalized ''minor interaction'' \<or>
            str_includes normalized ''relatively safe'' then Some False
         else if str_includes normalized ''high interaction'' \<or>
            str_includes normalized ''moderate interaction'' \<or>
            str_includes normalized ''high risk'' \<or>
            str_includes normalized ''moderate risk'' \<or>
            str_includes normalized ''avoid taking together'' \<or>
            str_includes normalized ''use caution'' then Some True
         else if str_includes normalized ''no conflict'' \<or>
            str_includes normalized ''no interaction'' \<or>
            str_includes normalized ''compatible'' then Some False
         else if str_includes normalized ''not safe'' \<or>
            str_includes normalized ''unsafe'' \<or>
            str_includes normalized ''has conflict'' \<or>
            str_includes normalized ''has interaction'' then Some True
         else if str_includes normalized ''conflict'' \<or>
            str_includes normalized ''interaction'' then Some True
         else if str_includes normalized ''safe'' then Some False
         else None)"

text \<open>\<open>!value\<close> on an optional string: missing or empty.\<close>

fun normalizeSeverity :: "string option \<Rightarrow> InteractionSeverity option" where
  "normalizeSeverity None = None"
| "normalizeSeverity (Some v) =
     (if v = [] then None
      else (let normalized = toLowerCase (trim v)
            in if normalized = ''minor'' then Some minor
               else if normalized = ''moderate'' \<or> normalized = ''medium'' then Some moderate
               else if normalized = ''major'' \<or> normalized = ''high'' \<or> normalized = ''severe''
                 then Some major
               else if normalized = ''contraindicated'' \<or> normalized = ''critical''
                 then Some contraindicated
               else None))"

fun parseLevel :: "string option \<Rightarrow> (bool \<times> InteractionSeverity option) option" where
  "parseLevel None = None"
| "parseLevel (Some v) =
     (if v = [] then None
      else (let normalized = toLowerCase (trim v)
            in if normalized = ''high'' then Some (True, Some major)
               else if normalized = ''moderate'' then Some (True, Some moderate)
               else if normalized = ''low'' then Some (False, Some minor)
               else if normalized = ''minor'' then Some (False, Some minor)
               else None))"

subsection \<open>The normalizer\<close>

text \<open>The five variables the scan over the scopes fills in; \<open>None\<close> is \<open>undefined\<close>.\<close>

record scan_state =
  st_hasConflict :: "bool option"
  st_reason :: "string option"
  st_severity :: "InteractionSeverity option"
  st_canSeparateBySchedule :: "bool option"
  st_minHoursApart :: "rat option"

definition scan_init :: scan_state where
  "scan_init = \<lparr>st_hasConflict = None, st_reason = None, st_severity = None,
     st_canSeparateBySchedule = None, st_minHoursApart = None\<rparr>"

text \<open>The key lists the scan probes, in the order it probes them.\<close>

definition level_keys :: "string list" where
  "level_keys = [''interaction_level'', ''interactionLevel'', ''level'', ''risk_level'', ''riskLevel'']"

definition conflict_keys :: "string list" where
  "conflict_keys = [''conflict'', ''hasConflict'', ''has_conflict'', ''isConflict'', ''is_conflict'',
     ''interaction'', ''isInteraction'', ''is_interaction'', ''unsafe'', ''isUnsafe'', ''is_unsafe'']"

definition status_keys :: "string list" where
  "status_keys = [''status'', ''result'', ''prediction'', ''decision'', ''label'']"

definition reason_keys :: "string list" where
  "reason_keys = [''reason'', ''message'', ''detail'', ''explanation'', ''notes'']"

definition severity_keys :: "string list" where
  "severity_keys = [''severity'', ''risk'', ''riskLevel'', ''risk_level'']"

definition separate_keys :: "string list" where
  "separate_keys = [''canSeparateBySchedule'', ''can_separate_by_schedule'', ''canSeparate'',
     ''can_separate'']"

definition hours_keys :: "string list" where
  "hours_keys = [''minHoursApart'', ''min_hours_apart'', ''hoursApart'', ''hours_apart'']"

text \<open>The body of \<open>for (const scope of scopes)\<close>, one assignment after the other.\<close>

definition scan_scope :: "scan_state \<Rightarrow> JsonRecord \<Rightarrow> scan_state" where
  "scan_scope st0 scope =
     (let levelText = readString scope level_keys;
          st1 = (case parseLevel levelText of
                   Some (levelConflict, levelSeverity) \<Rightarrow>
                     st0\<lparr>st_hasConflict :=
                            (if st_hasConflict st0 = None then Some levelConflict
                             else st_hasConflict st0),
                         st_severity :=
                            (if st_severity st0 = None then levelSeverity else st_severity st0)\<rparr>
                 | None \<Rightarrow> st0);
          st2 = (if st_hasConflict st1 = None
                 then st1\<lparr>st_hasConflict := readBoolean scope conflict_keys\<rparr>
                 else st1);
          st3 = (if st_hasConflict st2 = None
                 then (case readString scope status_keys of
                         Some statusText \<Rightarrow> st2\<lparr>st_hasConflict := parseBooleanFromText statusText\<rparr>
                       | None \<Rightarrow> st2)
                 else st2);
          st4 = (if st_reason st3 = None
                 then st3\<lparr>st_reason := readString scope reason_keys\<rparr>
                 else st3);
          st5 = (if st_severity st4 = None
                 then st4\<lparr>st_severity := normalizeSeverity (readString scope severity_keys)\<rparr>
                 else st4);
          st6 = (if st_canSeparateBySchedule st5 = None
                 then st5\<lparr>st_canSeparateBySchedule := readBoolean scope separate_keys\<rparr>
                 else st5)
      in if st_minHoursApart st6 = None
         then st6\<lparr>st_minHoursApart := readNumber scope hours_keys\<rparr>
         else st6)"

text \<open>The root and, after it, the objects under \<open>result\<close>, \<open>data\<close>, \<open>prediction\<close>, \<open>output\<close>.\<close>

definition scopes_of :: "JsonRecord \<Rightarrow> JsonRecord list" where
  "scopes_of rootObj =
     rootObj # List.map_filter (\<lambda>key. asRecord (get_prop rootObj key))
              [''result'', ''data'', ''prediction'', ''output'']"

definition no_conflict :: ParsedConflict where
  "no_conflict = \<lparr>hasConflict = False, parsed_severity = None, parsed_reason = None,
     parsed_canSeparateBySchedule = None, parsed_minHoursApart = None\<rparr>"

definition parse_object :: "JsonRecord \<Rightarrow> ParsedConflict" where
  "parse_object rootObj =
     (let st = foldl scan_scope scan_init (scopes_of rootObj)
      in \<lparr>hasConflict = (case st_hasConflict st of Some b \<Rightarrow> b | None \<Rightarrow> False),
          parsed_severity = st_severity st,
          parsed_reason = st_reason st,
          parsed_canSeparateBySchedule =
            Some (case st_canSeparateBySchedule st of Some b \<Rightarrow> b | None \<Rightarrow> False),
          parsed_minHoursApart = st_minHoursApart st\<rparr>)"

fun parseConflictResponse :: "json \<Rightarrow> ParsedConflict" where
  "parseConflictResponse (JBool response) = no_conflict\<lparr>hasConflict := response\<rparr>"
| "parseConflictResponse (JStr response) =
     no_conflict\<lparr>hasConflict := (case parseBooleanFromText response of Some b \<Rightarrow> b | None \<Rightarrow> False),
                 parsed_reason := Some response\<rparr>"
| "parseConflictResponse (JArr []) = no_conflict"
| "parseConflictResponse (JArr (first # others)) = parseConflictResponse first"
| "parseConflictResponse (JObj rootObj) = parse_object rootObj"
| "parseConflictResponse JNull = no_conflict"
| "parseConflictResponse (JNum n) = no_conflict"
| "parseConflictResponse JNonFinite = no_conflict"

subsection \<open>Verdict and recommendations over external findings\<close>

definition buildRecommendation :: "InteractionFinding \<Rightarrow> SafetyRecommendation" where
  "buildRecommendation interaction =
     (let medA = fst (medications interaction); medB = snd (medications interaction)
      in if severity interaction = contraindicated then
           \<lparr>rec_type = avoid_combination,
            title = ''Avoid combining '' @ medA @ '' and '' @ medB,
            details = reason interaction\<rparr>
         else if canSeparateBySchedule interaction \<and> truthy (minHoursApart interaction) then
           \<lparr>rec_type = keep_and_separate,
            title = ''Separate '' @ medA @ '' and '' @ medB,
            details = ''Keep at least '' @ template_num (minHoursApart interaction) @
              '' hours apart. '' @ reason interaction\<rparr>
         else
           \<lparr>rec_type = replace_medication,
            title = ''Review '' @ medA @ '' + '' @ medB,
            details = reason interaction\<rparr>)"

definition buildRecommendations :: "InteractionFinding list \<Rightarrow> SafetyRecommendation list" where
  "buildRecommendations found = map buildRecommendation found"

definition computeSafety :: "InteractionFinding list \<Rightarrow> bool" where
  "computeSafety found =
     (\<not> some (\<lambda>interaction.
          severity interaction = contraindicated \<or>
          (severity interaction = major \<and> \<not> canSeparateBySchedule interaction)) found)"

subsection \<open>The per-pair check and the merge\<close>

text \<open>
  What lies outside the program: the configured address (the environment variable,
  trimmed, or the empty string), the answer to each request, and \<open>JSON.parse\<close>. \<open>fetch env k drug1 drug2\<close> is the answer to the \<open>k\<close>-th request of a
  run, sent for the pair \<open>drug1\<close>, \<open>drug2\<close>: \<open>Rejected\<close> when building the address, the
  request or reading the body throws, otherwise the status and the body text.
  \<open>JSON_parse\<close> is \<open>None\<close> where \<open>JSON.parse\<close> throws.
\<close>

datatype fetch_result = Rejected string | Response nat string

record environment =
  EXTERNAL_CONFLICT_CHECK_URL :: string
  fetch :: "nat \<Rightarrow> string \<Rightarrow> string \<Rightarrow> fetch_result"
  JSON_parse :: "string \<Rightarrow> json option"

text \<open>A thrown \<open>Error\<close> is \<open>Inl\<close> of its message.\<close>

definition checkPairConflict ::
    "environment \<Rightarrow> nat \<Rightarrow> string \<Rightarrow> string \<Rightarrow> string + ParsedConflict" where
  "checkPairConflict env k drug1 drug2 =
     (if EXTERNAL_CONFLICT_CHECK_URL env = [] then Inr no_conflict
      else (case fetch env k drug1 drug2 of
              Rejected message \<Rightarrow> Inl message
            | Response status rawText \<Rightarrow>
                if \<not> (200 \<le> status \<and> status \<le> 299)
                then Inl (''External check failed with '' @ toString_nat status)
                else Inr (parseConflictResponse
                       (case JSON_parse env rawText of
                          Some data \<Rightarrow> data
                        | None \<Rightarrow> JStr rawText))))"

text \<open>\<open>Math.round\<close>: the nearest integer, a half going up.\<close>

definition Math_round :: "rat \<Rightarrow> int" where
  "Math_round x = \<lfloor>x + 1 / 2\<rfloor>"

definition external_finding ::
    "PrescribedMedication \<Rightarrow> PrescribedMedication \<Rightarrow> ParsedConflict \<Rightarrow> InteractionFinding" where
  "external_finding medA medB parsed =
     \<lparr>medications = (name medA, name medB),
      severity = (case parsed_severity parsed of Some s \<Rightarrow> s | None \<Rightarrow> major),
      reason = (case parsed_reason parsed of
                  Some r \<Rightarrow> r
                | None \<Rightarrow> ''Potential interaction detected by the external AI model.''),
      canSeparateBySchedule =
        (case parsed_canSeparateBySchedule parsed of Some b \<Rightarrow> b | None \<Rightarrow> False),
      minHoursApart =
        (if parsed_canSeparateBySchedule parsed = Some True \<and> truthy (parsed_minHoursApart parsed)
         then map_option (\<lambda>x. max 1 (Math_round x)) (parsed_minHoursApart parsed)
         else None),
      alternatives = None\<rparr>"

text \<open>
  The two index loops of \<open>collectExternalInteractions\<close>, with the number of requests sent
  so far; the first throw ends the run.
\<close>

fun collect_row ::
    "environment \<Rightarrow> nat \<Rightarrow> PrescribedMedication \<Rightarrow> PrescribedMedication list \<Rightarrow>
     string + (InteractionFinding list \<times> nat)" where
  "collect_row env k medA [] = Inr ([], k)"
| "collect_row env k medA (medB # rest) =
     (case checkPairConflict env k (name medA) (name medB) of
        Inl err \<Rightarrow> Inl err
      | Inr parsed \<Rightarrow>
          (case collect_row env (Suc k) medA rest of
             Inl err \<Rightarrow> Inl err
           | Inr (found, k') \<Rightarrow>
               Inr ((if hasConflict parsed then [external_finding medA medB parsed] else []) @ found,
                    k')))"

fun collect_from ::
    "environment \<Rightarrow> nat \<Rightarrow> PrescribedMedication list \<Rightarrow> string + InteractionFinding list" where
  "collect_from env k [] = Inr []"
| "collect_from env k (medA # rest) =
     (case collect_row env k medA rest of
        Inl err \<Rightarrow> Inl err
      | Inr (found, k') \<Rightarrow>
          (case collect_from env k' rest of
             Inl err \<Rightarrow> Inl err
           | Inr later \<Rightarrow> Inr (found @ later)))"

definition collectExternalInteractions ::
    "environment \<Rightarrow> PrescriptionAnalysisRequest \<Rightarrow> string + InteractionFinding list" where
  "collectExternalInteractions env payload = collect_from env 0 (request_medications payload)"

text \<open>
  The entry point. The \<open>catch\<close> takes every throw of the external phase and, after a
  warning on the console, hands out the local result.
\<close>

definition analyzePrescriptionWithExternalCheck ::
    "environment \<Rightarrow> PrescriptionAnalysisRequest \<Rightarrow> PrescriptionAnalysisResult" where
  "analyzePrescriptionWithExternalCheck env payload =
     (let local = analyzePrescription payload
      in if EXTERNAL_CONFLICT_CHECK_URL env = [] then local
         else (case collectExternalInteractions env payload of
                 Inr externalInteractions \<Rightarrow>
                   local\<lparr>isSafe := computeSafety externalInteractions,
                         interactions := externalInteractions,
                         recommendations := buildRecommendations externalInteractions\<rparr>
               | Inl err \<Rightarrow> local))"

subsection \<open>Notions used to state the properties of detection\<close>

text \<open>A finding with the order of its pair forgotten, and the findings of a run as a
  multiset of such.\<close>

definition finding_modulo_order ::
    "InteractionFinding \<Rightarrow>
     string set \<times> InteractionSeverity \<times> string \<times> bool \<times> int option \<times>
     (string \<times> string list) list option" where
  "finding_modulo_order f =
     ({fst (medications f), snd (medications f)}, severity f, reason f,
      canSeparateBySchedule f, minHoursApart f, alternatives f)"

definition findings_modulo_order :: "InteractionFinding list \<Rightarrow> _ multiset" where
  "findings_modulo_order found = image_mset finding_modulo_order (mset found)"

text \<open>What one pair contributes to a run.\<close>

definition pair_findings :: "PrescribedMedication \<Rightarrow> PrescribedMedication \<Rightarrow> _ multiset" where
  "pair_findings a b = findings_modulo_order (detect_row a [b])"

subsection \<open>Notions used to state the properties of the optimizer\<close>


text \<open>The slot \<open>find\<close> hands out for a name: the first of that name.\<close>

definition first_slot_named :: "ScheduleSlot list \<Rightarrow> string \<Rightarrow> nat \<Rightarrow> bool" where
  "first_slot_named sched med_name i =
     (i < length sched \<and> medication (sched ! i) = med_name \<and>
      (\<forall>j<i. medication (sched ! j) \<noteq> med_name))"

subsection \<open>Notions used to state the properties of the normalizer\<close>

text \<open>What the normalizer ends up looking at: arrays are opened at their first element.\<close>

fun payload_core :: "json \<Rightarrow> json" where
  "payload_core (JArr (first # others)) = payload_core first"
| "payload_core v = v"


subsection \<open>Notions used to state the properties of the merge\<close>

text \<open>The pairs \<open>(medications[i], medications[j])\<close>, \<open>i < j\<close>, in the order the two index
  loops visit them.\<close>

fun pairs_of :: "'a list \<Rightarrow> ('a \<times> 'a) list" where
  "pairs_of [] = []"
| "pairs_of (x # xs) = map (Pair x) xs @ pairs_of xs"

text \<open>The outcome of the \<open>k\<close>-th per-pair check of a run over \<open>meds\<close>.\<close>

definition pair_check :: "environment \<Rightarrow> PrescribedMedication list \<Rightarrow> nat \<Rightarrow> string + ParsedConflict" where
  "pair_check env meds k =
     checkPairConflict env k (name (fst (pairs_of meds ! k))) (name (snd (pairs_of meds ! k)))"

text \<open>The run of the checks over a list of pairs, from request number \<open>k\<close> on.\<close>

fun collect_list ::
    "environment \<Rightarrow> nat \<Rightarrow> (PrescribedMedication \<times> PrescribedMedication) list \<Rightarrow>
     string + InteractionFinding list" where
  "collect_list env k [] = Inr []"
| "collect_list env k ((medA, medB) # ps) =
     (case checkPairConflict env k (name medA) (name medB) of
        Inl err \<Rightarrow> Inl err
      | Inr parsed \<Rightarrow>
          (case collect_list env (Suc k) ps of
             Inl err \<Rightarrow> Inl err
           | Inr found \<Rightarrow>
               Inr ((if hasConflict parsed then [external_finding medA medB parsed] else []) @ found)))"

section \<open>Concrete requests and environments\<close>

definition example_patient :: PatientProfile where
  "example_patient = \<lparr>patient_id = ''p-1'', patient_name = ''Pat'', age = 54, allergies = [],
     conditions = [], renalImpairment = None, hepaticImpairment = None\<rparr>"

definition med :: "string \<Rightarrow> frequency \<Rightarrow> PrescribedMedication" where
  "med n f = \<lparr>name = n, dose = ''1 tablet'', frequencyPerDay = f, medicationClass = None\<rparr>"

definition request_of :: "PrescribedMedication list \<Rightarrow> PrescriptionAnalysisRequest" where
  "request_of meds = \<lparr>diagnosis = ''checkup'', patient = example_patient,
     request_medications = meds\<rparr>"

definition scenario_A :: PrescriptionAnalysisRequest where
  "scenario_A = request_of [med ''aspirin'' Once, med ''warfarin'' Once]"


definition payload_quiet :: JsonRecord where
  "payload_quiet = [(''note'', JStr ''n/a'')]"


definition scenario_three :: PrescriptionAnalysisRequest where
  "scenario_three = request_of [med ''aspirin'' Once, med ''warfarin'' Once, med ''calcium'' Twice]"

definition env_failing :: environment where
  "env_failing =
     \<lparr>EXTERNAL_CONFLICT_CHECK_URL = ''https://checker.example/conflict'',
      fetch = (\<lambda>k drug1 drug2. if k = 0 then Response 200 ''true'' else Response 503 ''''),
      JSON_parse = (\<lambda>s. if s = ''true'' then Some (JBool True) else None)\<rparr>"



definition scenario_frame :: PrescriptionAnalysisRequest where
  "scenario_frame =
     request_of [med ''calcium'' Twice, med ''levothyroxine'' Once, med ''aspirin'' Once]"

definition finding_C :: InteractionFinding where
  "finding_C =
     \<lparr>medications = (''calcium'', ''levothyroxine''), severity = moderate,
      reason = ''Calcium reduces levothyroxine absorption.'',
      canSeparateBySchedule = True, minHoursApart = Some 4,
      alternatives = Some [(''calcium'', [''vitamin D only (if clinically acceptable)''])]\<rparr>"


section \<open>Properties\<close>

subsection \<open>Clock times\<close>

lemma Number_str_two_digits:
  assumes "is_digit a" "is_digit b"
  shows "Number_str [a, b] = Some (of_nat (10 * digit_val a + digit_val b))"
proof -
  have sp: "\<not> is_space a" "\<not> is_space b" "a \<noteq> CHR ''+''" "a \<noteq> CHR ''-''"
    "b \<notin> set ''xXoObB''"
    using assms by (auto simp: is_digit_def is_space_def)
  have "trim [a, b] = [a, b]"
    using sp by (simp add: trim_def)
  moreover have "unsigned_decimal [a, b] = Some (of_nat (10 * digit_val a + digit_val b))"
    using assms by (simp add: unsigned_decimal_def exponent_of_def dec_val_def radix_val_def)
  ultimately show ?thesis
    using sp by (simp add: Number_str_def)
qed

lemma parseTime_digits:
  assumes d: "is_digit h1" "is_digit h2" "is_digit m1" "is_digit m2"
  shows "parseTime [h1, h2, CHR '':'', m1, m2] =
           Some (int ((10 * digit_val h1 + digit_val h2) * 60 + (10 * digit_val m1 + digit_val m2)))"
proof -
  have nc: "h1 \<noteq> CHR '':''" "h2 \<noteq> CHR '':''" "m1 \<noteq> CHR '':''" "m2 \<noteq> CHR '':''"
    using d by (auto simp: is_digit_def)
  have sp: "split_colon [h1, h2, CHR '':'', m1, m2] = [[h1, h2], [m1, m2]]"
    using nc by simp
  define h where "h = 10 * digit_val h1 + digit_val h2"
  define m where "m = 10 * digit_val m1 + digit_val m2"
  have nh: "Number_str [h1, h2] = Some (of_nat h)" and nm: "Number_str [m1, m2] = Some (of_nat m)"
    unfolding h_def m_def by (rule Number_str_two_digits; fact)+
  have tot: "(of_nat h :: rat) * 60 + of_nat m = of_int (int (h * 60 + m))"
    by simp
  have "parseTime [h1, h2, CHR '':'', m1, m2] = Some (int (h * 60 + m))"
    unfolding parseTime_def sp
    by (simp only: list.map nh nm list.case option.case tot Let_def floor_of_int) simp
  then show ?thesis by (simp only: h_def m_def)
qed


lemma minutes_bound:
  fixes h m :: nat
  assumes "h < 24" "m < 60"
  shows "int (h * 60 + m) < 1440"
  using assms by linarith

lemma valid_time_parseTime:
  assumes "valid_time t"
  shows "\<exists>n. parseTime t = Some n \<and> 0 \<le> n \<and> n < 1440"
proof -
  from assms obtain h1 h2 m1 m2 where t: "t = [h1, h2, CHR '':'', m1, m2]"
    and d: "is_digit h1" "is_digit h2" "is_digit m1" "is_digit m2"
    and r: "10 * digit_val h1 + digit_val h2 < 24" "10 * digit_val m1 + digit_val m2 < 60"
    by (cases t rule: valid_time.cases) auto
  from minutes_bound [OF r] parseTime_digits [OF d] show ?thesis
    unfolding t by simp
qed

text \<open>
  C9. For valid 24-hour times \<open>a\<close> and \<open>b\<close>, \<open>timeDiffHours a b\<close> equals
  \<open>timeDiffHours b a\<close>, is a number (not \<open>NaN\<close>), and lies between 0 and 12 inclusive.
\<close>

theorem timeDiffHours_symmetric_bounded:
  assumes "valid_time a" "valid_time b"
  shows "timeDiffHours a b = timeDiffHours b a \<and>
         (\<exists>d. timeDiffHours a b = Some d \<and> 0 \<le> d \<and> d \<le> 12)"
proof -
  obtain x where x: "parseTime a = Some x" "0 \<le> x" "x < 1440"
    using valid_time_parseTime [OF assms(1)] by auto
  obtain y where y: "parseTime b = Some y" "0 \<le> y" "y < 1440"
    using valid_time_parseTime [OF assms(2)] by auto
  have sym: "timeDiffHours a b = timeDiffHours b a"
    by (simp add: timeDiffHours_def x y abs_minus_commute)
  let ?w = "min \<bar>x - y\<bar> (1440 - \<bar>x - y\<bar>)"
  have w: "0 \<le> ?w" "?w \<le> 720" using x y by auto
  have d: "timeDiffHours a b = Some (of_int ?w / 60)"
    by (simp add: timeDiffHours_def x y Let_def)
  have "(0::rat) \<le> of_int ?w / 60" using w(1) by simp
  moreover have "(of_int ?w :: rat) \<le> 720" using w(2) by (metis of_int_le_iff of_int_numeral)
  then have "(of_int ?w :: rat) / 60 \<le> 12" by simp
  ultimately show ?thesis using sym d by blast
qed

theorem timeDiffHours_symmetric_bounded_witness:
  "valid_time ''22:00'' \<and> valid_time ''06:00'' \<and>
   timeDiffHours ''22:00'' ''06:00'' = timeDiffHours ''06:00'' ''22:00'' \<and>
   (\<exists>d. timeDiffHours ''22:00'' ''06:00'' = Some d \<and> 0 \<le> d \<and> d \<le> 12)"
proof -
  have v: "valid_time ''22:00''" "valid_time ''06:00''"
    by (simp_all add: is_digit_def digit_val_def)
  show ?thesis
    using v timeDiffHours_symmetric_bounded [OF v] by blast
qed

subsection \<open>The verdict\<close>

lemma some_iff: "some p xs \<longleftrightarrow> (\<exists>x\<in>set xs. p x)"
  by (induction xs) auto

text \<open>
  C1. The result's \<open>isSafe\<close> is false exactly when some finding of the result's
  interactions is contraindicated, or is major and not separable by schedule: for the local
  analyzer, for the recomputation \<open>computeSafety\<close> over any finding list, and so for
  whatever the external-aware entry point hands out.
\<close>

theorem isSafe_characterization:
  "(isSafe (analyzePrescription input) = False \<longleftrightarrow>
      (\<exists>f \<in> set (interactions (analyzePrescription input)).
         severity f = contraindicated \<or> (severity f = major \<and> canSeparateBySchedule f = False))) \<and>
   (computeSafety found = False \<longleftrightarrow>
      (\<exists>f \<in> set found.
         severity f = contraindicated \<or> (severity f = major \<and> canSeparateBySchedule f = False))) \<and>
   (isSafe (analyzePrescriptionWithExternalCheck env input) = False \<longleftrightarrow>
      (\<exists>f \<in> set (interactions (analyzePrescriptionWithExternalCheck env input)).
         severity f = contraindicated \<or> (severity f = major \<and> canSeparateBySchedule f = False)))"
proof -
  have loc: "isSafe (analyzePrescription input) = False \<longleftrightarrow>
      (\<exists>f \<in> set (interactions (analyzePrescription input)).
         severity f = contraindicated \<or> (severity f = major \<and> canSeparateBySchedule f = False))"
    by (simp add: analyzePrescription_def Let_def some_iff)
  have ext: "computeSafety fs = False \<longleftrightarrow>
      (\<exists>f \<in> set fs.
         severity f = contraindicated \<or> (severity f = major \<and> canSeparateBySchedule f = False))" for fs
    by (simp add: computeSafety_def some_iff)
  have "isSafe (analyzePrescriptionWithExternalCheck env input) = False \<longleftrightarrow>
      (\<exists>f \<in> set (interactions (analyzePrescriptionWithExternalCheck env input)).
         severity f = contraindicated \<or> (severity f = major \<and> canSeparateBySchedule f = False))"
  proof (cases "EXTERNAL_CONFLICT_CHECK_URL env = []")
    case True
    then show ?thesis using loc by (simp add: analyzePrescriptionWithExternalCheck_def Let_def)
  next
    case False
    show ?thesis
    proof (cases "collectExternalInteractions env input")
      case (Inl err)
      then show ?thesis using loc False by (simp add: analyzePrescriptionWithExternalCheck_def Let_def)
    next
      case (Inr fs)
      then show ?thesis using ext [of fs] False
        by (simp add: analyzePrescriptionWithExternalCheck_def Let_def)
    qed
  qed
  with loc ext show ?thesis by blast
qed

theorem isSafe_characterization_witness:
  "isSafe (analyzePrescription scenario_A) = False \<and>
   (\<exists>f \<in> set (interactions (analyzePrescription scenario_A)).
      severity f = major \<and> canSeparateBySchedule f = False)"
proof -
  have "\<exists>f \<in> set (interactions (analyzePrescription scenario_A)).
      severity f = major \<and> canSeparateBySchedule f = False"
    by code_simp
  then show ?thesis
    using isSafe_characterization [of scenario_A] by blast
qed

subsection \<open>The normalizer\<close>

text \<open>
  C6. The normalizer classifies by shape: a boolean is \<open>hasConflict\<close>; a string goes
  through the free-text heuristic (false when it does not decide) and becomes the reason;
  an empty array is no conflict and any other array is read at its first element; and the
  three payloads of the specification come out as it says.
\<close>

theorem parseConflictResponse_shapes:
  "hasConflict (parseConflictResponse (JBool b)) = b \<and>
   hasConflict (parseConflictResponse (JStr s)) =
     (case parseBooleanFromText s of Some v \<Rightarrow> v | None \<Rightarrow> False) \<and>
   parsed_reason (parseConflictResponse (JStr s)) = Some s \<and>
   hasConflict (parseConflictResponse (JArr [])) = False \<and>
   parseConflictResponse (JArr (x # xs)) = parseConflictResponse x \<and>
   hasConflict (parseConflictResponse (JObj [(''interaction_level'', JStr ''high'')])) = True \<and>
   parsed_severity (parseConflictResponse (JObj [(''interaction_level'', JStr ''high'')])) = Some major \<and>
   hasConflict (parseConflictResponse (JObj [(''status'', JStr ''no conflict found'')])) = False \<and>
   hasConflict (parseConflictResponse (JStr ''Use caution when combining these drugs'')) = True"
proof -
  have e1: "hasConflict (parseConflictResponse (JObj [(''interaction_level'', JStr ''high'')])) = True"
    by code_simp
  have e2: "parsed_severity (parseConflictResponse (JObj [(''interaction_level'', JStr ''high'')])) = Some major"
    by code_simp
  have e3: "hasConflict (parseConflictResponse (JObj [(''status'', JStr ''no conflict found'')])) = False"
    by code_simp
  have e4: "hasConflict (parseConflictResponse (JStr ''Use caution when combining these drugs'')) = True"
    by code_simp
  have g: "hasConflict (parseConflictResponse (JBool b)) = b"
    "hasConflict (parseConflictResponse (JStr s)) =
       (case parseBooleanFromText s of Some v \<Rightarrow> v | None \<Rightarrow> False)"
    "parsed_reason (parseConflictResponse (JStr s)) = Some s"
    "hasConflict (parseConflictResponse (JArr [])) = False"
    "parseConflictResponse (JArr (x # xs)) = parseConflictResponse x"
    by (simp_all add: no_conflict_def)
  from e1 e2 e3 e4 g show ?thesis by (intro conjI)
qed














text \<open>
  C10, as the claim states it, fails on a boolean payload: \<open>canSeparateBySchedule\<close> is
  left out of the returned record.
\<close>

theorem canSeparateBySchedule_undefined_counterexample:
  "parsed_canSeparateBySchedule (parseConflictResponse (JBool True)) = None"
  by (simp add: no_conflict_def)

text \<open>
  C10, amended. \<open>parseConflictResponse\<close> is defined on every decoded value (a total
  function, its recursion through arrays ending at the first element that is not a
  non-empty array, which alone decides the result), its \<open>hasConflict\<close> is a boolean by its
  type, and its \<open>canSeparateBySchedule\<close> is a boolean exactly when that element is an
  object; otherwise it is absent.
\<close>

theorem parseConflictResponse_canSeparate_defined:
  "parseConflictResponse v = parseConflictResponse (payload_core v) \<and>
   ((\<exists>b. parsed_canSeparateBySchedule (parseConflictResponse v) = Some b) \<longleftrightarrow>
    (\<exists>members. payload_core v = JObj members))"
proof -
  have core: "parseConflictResponse v = parseConflictResponse (payload_core v)"
    by (induction v rule: parseConflictResponse.induct) simp_all
  have "(\<exists>b. parsed_canSeparateBySchedule (parseConflictResponse v) = Some b) \<longleftrightarrow>
    (\<exists>members. payload_core v = JObj members)"
    by (induction v rule: parseConflictResponse.induct)
       (simp_all add: no_conflict_def parse_object_def Let_def)
  with core show ?thesis by blast
qed

theorem parseConflictResponse_canSeparate_defined_witness:
  "(\<exists>b. parsed_canSeparateBySchedule
          (parseConflictResponse (JArr [JArr [JObj payload_quiet], JNull])) = Some b) \<and>
   payload_core (JArr [JArr [JObj payload_quiet], JNull]) = JObj payload_quiet"
  using parseConflictResponse_canSeparate_defined [of "JArr [JArr [JObj payload_quiet], JNull]"]
  by simp

subsection \<open>The merge\<close>

lemma collect_row_list:
  "collect_row env k medA rest =
     (case collect_list env k (map (Pair medA) rest) of
        Inl err \<Rightarrow> Inl err
      | Inr found \<Rightarrow> Inr (found, k + length rest))"
  by (induction rest arbitrary: k) (auto split: sum.splits)

lemma collect_list_append:
  "collect_list env k (ps @ qs) =
     (case collect_list env k ps of
        Inl err \<Rightarrow> Inl err
      | Inr found \<Rightarrow>
          (case collect_list env (k + length ps) qs of
             Inl err \<Rightarrow> Inl err
           | Inr later \<Rightarrow> Inr (found @ later)))"
  by (induction ps arbitrary: k) (auto split: sum.splits)

lemma collect_from_list: "collect_from env k meds = collect_list env k (pairs_of meds)"
  by (induction meds arbitrary: k)
     (auto simp: collect_row_list collect_list_append split: sum.splits)

lemma collect_list_throws:
  assumes "i < length ps"
    and "checkPairConflict env (k + i) (name (fst (ps ! i))) (name (snd (ps ! i))) = Inl err"
  shows "\<exists>e. collect_list env k ps = Inl e"
  using assms
proof (induction ps arbitrary: k i)
  case Nil
  then show ?case by simp
next
  case (Cons p ps)
  obtain medA medB where p: "p = (medA, medB)" by (cases p)
  show ?case
  proof (cases i)
    case 0
    with Cons.prems p show ?thesis by simp
  next
    case (Suc j)
    with Cons.prems have "j < length ps"
      and "checkPairConflict env (Suc k + j) (name (fst (ps ! j))) (name (snd (ps ! j))) = Inl err"
      by simp_all
    from Cons.IH [OF this] obtain e where "collect_list env (Suc k) ps = Inl e" ..
    then show ?thesis by (simp add: p split: sum.splits)
  qed
qed


lemma checkPairConflict_throws:
  "checkPairConflict env k drug1 drug2 = Inl err \<longleftrightarrow>
     EXTERNAL_CONFLICT_CHECK_URL env \<noteq> [] \<and>
     (fetch env k drug1 drug2 = Rejected err \<or>
      (\<exists>status rawText. fetch env k drug1 drug2 = Response status rawText \<and>
         (status < 200 \<or> 299 < status) \<and>
         err = ''External check failed with '' @ toString_nat status))"
  by (cases "fetch env k drug1 drug2") (auto simp: checkPairConflict_def)

text \<open>
  C2. With no endpoint configured, or with any per-pair check throwing (a rejected request
  or a status outside 200 to 299, see \<open>checkPairConflict_throws\<close>), the external-aware
  entry point returns the local
  analysis itself: nothing of the pairs checked before the failure is merged, and the
  function, total, raises nothing.
\<close>

theorem external_failure_falls_back:
  assumes "EXTERNAL_CONFLICT_CHECK_URL env = [] \<or>
           (\<exists>k<length (pairs_of (request_medications payload)). \<exists>err.
              pair_check env (request_medications payload) k = Inl err)"
  shows "analyzePrescriptionWithExternalCheck env payload = analyzePrescription payload"
proof (cases "EXTERNAL_CONFLICT_CHECK_URL env = []")
  case True
  then show ?thesis by (simp add: analyzePrescriptionWithExternalCheck_def)
next
  case False
  with assms obtain k err where k: "k < length (pairs_of (request_medications payload))"
    and "pair_check env (request_medications payload) k = Inl err"
    by blast
  then have "checkPairConflict env (0 + k)
      (name (fst (pairs_of (request_medications payload) ! k)))
      (name (snd (pairs_of (request_medications payload) ! k))) = Inl err"
    by (simp add: pair_check_def)
  from collect_list_throws [OF k this]
  obtain e where "collectExternalInteractions env payload = Inl e"
    by (auto simp: collectExternalInteractions_def collect_from_list)
  then show ?thesis by (simp add: analyzePrescriptionWithExternalCheck_def Let_def)
qed

theorem external_failure_falls_back_witness:
  "analyzePrescriptionWithExternalCheck env_failing scenario_three =
     analyzePrescription scenario_three \<and>
   (\<exists>p. pair_check env_failing (request_medications scenario_three) 0 = Inr p \<and> hasConflict p)"
proof -
  have k: "1 < length (pairs_of (request_medications scenario_three))"
    by code_simp
  have e: "pair_check env_failing (request_medications scenario_three) 1 =
             Inl ''External check failed with 503''"
    by code_simp
  have first: "pair_check env_failing (request_medications scenario_three) 0 =
             Inr (no_conflict\<lparr>hasConflict := True\<rparr>)"
    by code_simp
  have "analyzePrescriptionWithExternalCheck env_failing scenario_three =
     analyzePrescription scenario_three"
    by (rule external_failure_falls_back) (use k e in blast)
  with first show ?thesis by simp
qed



subsection \<open>The schedule optimizer\<close>

lemma lt10_cases: "(k::nat) < 10 \<Longrightarrow>
  k = 0 \<or> k = 1 \<or> k = 2 \<or> k = 3 \<or> k = 4 \<or> k = 5 \<or> k = 6 \<or> k = 7 \<or> k = 8 \<or> k = 9"
  by presburger

lemma digit_char:
  assumes "k < 10"
  shows "is_digit (''0123456789'' ! k)" and "digit_val (''0123456789'' ! k) = k"
  using lt10_cases [OF assms]
  by (elim disjE; simp add: is_digit_def digit_val_def)+

lemma toString_nat_two:
  assumes "k < 100"
  shows "padStart2 (toString_nat k) = [''0123456789'' ! (k div 10), ''0123456789'' ! (k mod 10)]"
proof (cases "k < 10")
  case True
  then have "toString_nat k = [''0123456789'' ! k]"
    by (subst toString_nat.simps) simp
  with True show ?thesis by (simp add: padStart2_def)
next
  case False
  with assms have small: "k div 10 < 10" by simp
  have "toString_nat (k div 10) = [''0123456789'' ! (k div 10)]"
    using small by (subst toString_nat.simps) simp
  with False have "toString_nat k = [''0123456789'' ! (k div 10), ''0123456789'' ! (k mod 10)]"
    by (subst toString_nat.simps) simp
  then show ?thesis by (simp add: padStart2_def)
qed

lemma js_rem_nonneg: "0 \<le> a \<Longrightarrow> 0 < b \<Longrightarrow> js_rem a b = a mod b"
  by (cases "a = 0") (simp_all add: js_rem_def)

lemma js_rem_mod: "0 < b \<Longrightarrow> js_rem a b mod b = a mod b"
proof (cases "0 \<le> a")
  case True
  assume "0 < b"
  with True show ?thesis by (simp add: js_rem_nonneg)
next
  case False
  assume b: "0 < b"
  from False have "js_rem a b = - ((- a) mod b)" using b by (simp add: js_rem_def)
  then have "js_rem a b mod b = (- ((- a) mod b)) mod b" by simp
  also have "\<dots> = (- (- a)) mod b" by (rule mod_minus_eq)
  finally show ?thesis by simp
qed

lemma js_rem_bounds: "0 < b \<Longrightarrow> - b < js_rem a b \<and> js_rem a b < b"
proof -
  assume b: "0 < b"
  define r where "r = \<bar>a\<bar> mod b"
  have r: "0 \<le> r" "r < b" using b by (simp_all add: r_def)
  have "js_rem a b = r \<or> js_rem a b = - r"
    using b unfolding r_def js_rem_def by (cases "a = 0"; cases "0 < a") simp_all
  with r b show ?thesis by auto
qed

lemma normalized_minutes: "js_rem (js_rem n 1440 + 1440) 1440 = n mod 1440"
proof -
  have "0 \<le> js_rem n 1440 + 1440" using js_rem_bounds [of 1440 n] by simp
  then have "js_rem (js_rem n 1440 + 1440) 1440 = (js_rem n 1440 + 1440) mod 1440"
    by (simp add: js_rem_nonneg)
  also have "\<dots> = js_rem n 1440 mod 1440" by simp
  also have "\<dots> = n mod 1440" by (simp add: js_rem_mod)
  finally show ?thesis .
qed

lemma formatTime_digits:
  fixes n :: int
  defines "h \<equiv> nat ((n mod 1440) div 60)" and "m \<equiv> nat ((n mod 1440) mod 60)"
  shows "formatTime n =
    [''0123456789'' ! (h div 10), ''0123456789'' ! (h mod 10), CHR '':'',
     ''0123456789'' ! (m div 10), ''0123456789'' ! (m mod 10)]"
    and "h < 24" and "m < 60"
proof -
  have x: "0 \<le> n mod 1440" "n mod 1440 < 1440" by simp_all
  have h0: "0 \<le> (n mod 1440) div 60" "(n mod 1440) div 60 < 24" using x by simp_all
  have m0: "0 \<le> (n mod 1440) mod 60" "(n mod 1440) mod 60 < 60" by simp_all
  show hb: "h < 24" using h0 by (simp add: h_def)
  show mb: "m < 60" using m0 by (simp add: m_def)
  have th: "toString_int ((n mod 1440) div 60) = toString_nat h"
    using h0 by (simp add: toString_int_def h_def)
  have tm: "toString_int (js_rem (n mod 1440) 60) = toString_nat m"
    using m0 x by (simp add: toString_int_def m_def js_rem_nonneg)
  have "formatTime n = padStart2 (toString_nat h) @ '':'' @ padStart2 (toString_nat m)"
    by (simp add: formatTime_def Let_def normalized_minutes th tm)
  then show "formatTime n =
    [''0123456789'' ! (h div 10), ''0123456789'' ! (h mod 10), CHR '':'',
     ''0123456789'' ! (m div 10), ''0123456789'' ! (m mod 10)]"
    using hb mb by (simp add: toString_nat_two)
qed

lemma formatTime_valid: "valid_time (formatTime n)"
proof -
  define h where "h = nat ((n mod 1440) div 60)"
  define m where "m = nat ((n mod 1440) mod 60)"
  note f = formatTime_digits [of n, folded h_def m_def]
  have small: "h div 10 < 10" "h mod 10 < 10" "m div 10 < 10" "m mod 10 < 10"
    using f(2,3) by simp_all
  have "10 * (h div 10) + h mod 10 < 24" "10 * (m div 10) + m mod 10 < 60"
    using f(2,3) by simp_all
  then show ?thesis
    by (simp add: f(1) digit_char small)
qed


lemma shiftTimes_valid:
  assumes "\<forall>t\<in>set ts. valid_time t"
  shows "\<forall>t\<in>set (shiftTimes ts s). valid_time t"
proof -
  have "valid_time (case parseTime t of Some p \<Rightarrow> formatTime (p + s * 60) | None \<Rightarrow> ''NaN:NaN'')"
    if "t \<in> set ts" for t
  proof -
    from that assms have "valid_time t" by blast
    from valid_time_parseTime [OF this] obtain p where "parseTime t = Some p" by blast
    then show ?thesis by (simp add: formatTime_valid)
  qed
  then show ?thesis by (auto simp: shiftTimes_def Let_def)
qed




lemma findIndex_first:
  "findIndex p xs = Some i \<longleftrightarrow> i < length xs \<and> p (xs ! i) \<and> (\<forall>j<i. \<not> p (xs ! j))"
proof (induction xs arbitrary: i)
  case Nil
  show ?case by simp
next
  case (Cons x xs)
  show ?case
  proof (cases "p x")
    case True
    then show ?thesis by (cases i) auto
  next
    case False
    show ?thesis
    proof (cases i)
      case 0
      with False show ?thesis by auto
    next
      case (Suc k)
      have "(\<forall>j<Suc k. \<not> p ((x # xs) ! j)) \<longleftrightarrow> (\<forall>j<k. \<not> p (xs ! j))"
        using False by (auto simp: less_Suc_eq_0_disj)
      with False Suc Cons.IH [of k] show ?thesis by auto
    qed
  qed
qed

lemma search_shift_Some:
  "search_shift timesA timesB minHours shift = Some candidate \<Longrightarrow>
   \<exists>k. shift \<le> k \<and> k \<le> 12 \<and>
       allPairsRespectGap timesA (shiftTimes timesB k) minHours \<and>
       (\<forall>j. shift \<le> j \<and> j < k \<longrightarrow> \<not> allPairsRespectGap timesA (shiftTimes timesB j) minHours) \<and>
       candidate = shiftTimes timesB k"
proof (induction timesA timesB minHours shift rule: search_shift.induct)
  case (1 timesA timesB minHours shift)
  show ?case
  proof (cases "shift \<le> 12")
    case False
    with "1.prems" show ?thesis by (simp add: search_shift.simps)
  next
    case le: True
    show ?thesis
    proof (cases "allPairsRespectGap timesA (shiftTimes timesB shift) minHours")
      case True
      with le "1.prems" have "candidate = shiftTimes timesB shift"
        by (simp add: search_shift.simps [of timesA timesB minHours shift])
      with le True show ?thesis by (intro exI [of _ shift]) auto
    next
      case False
      with le "1.prems" have "search_shift timesA timesB minHours (shift + 1) = Some candidate"
        by (simp add: search_shift.simps [of timesA timesB minHours shift])
      from "1.IH" [OF le False this] obtain k where k: "shift + 1 \<le> k" "k \<le> 12"
        "allPairsRespectGap timesA (shiftTimes timesB k) minHours"
        "\<forall>j. shift + 1 \<le> j \<and> j < k \<longrightarrow> \<not> allPairsRespectGap timesA (shiftTimes timesB j) minHours"
        "candidate = shiftTimes timesB k"
        by blast
      have "\<not> allPairsRespectGap timesA (shiftTimes timesB j) minHours" if "shift \<le> j" "j < k" for j
      proof (cases "j = shift")
        case True
        with False show ?thesis by simp
      next
        case False
        with that have "shift + 1 \<le> j" by simp
        with k(4) that show ?thesis by blast
      qed
      with k show ?thesis by (intro exI [of _ k]) auto
    qed
  qed
qed



lemma baseTimes_valid: "\<forall>t\<in>set (baseTimes f). valid_time t"
  by (cases f) (simp_all add: is_digit_def digit_val_def)

lemma buildInitialSchedule_valid:
  "\<forall>slot\<in>set (buildInitialSchedule meds). \<forall>t\<in>set (times slot). valid_time t"
  using baseTimes_valid by (auto simp: buildInitialSchedule_def)

lemma optimize_finding_valid:
  assumes "\<forall>slot\<in>set sched. \<forall>t\<in>set (times slot). valid_time t"
  shows "\<forall>slot\<in>set (optimize_finding sched finding). \<forall>t\<in>set (times slot). valid_time t"
proof (cases "minHoursApart finding")
  case None
  with assms show ?thesis by (simp add: optimize_finding_def)
next
  case gap: (Some gap)
  show ?thesis
  proof (cases "findIndex (\<lambda>slot. medication slot = fst (medications finding)) sched")
    case None
    with gap assms show ?thesis by (simp add: optimize_finding_def)
  next
    case ia: (Some ia)
    show ?thesis
    proof (cases "findIndex (\<lambda>slot. medication slot = snd (medications finding)) sched")
      case None
      with gap ia assms show ?thesis by (simp add: optimize_finding_def)
    next
      case ib: (Some ib)
      let ?A = "sched ! ia" and ?B = "sched ! ib"
      from ib have "ib < length sched" by (simp add: findIndex_first)
      then have vb: "\<forall>t\<in>set (times ?B). valid_time t" using assms nth_mem by blast
      have upd: "\<forall>slot\<in>set (sched[ib := new]). \<forall>t\<in>set (times slot). valid_time t"
        if "\<forall>t\<in>set (times new). valid_time t" for new
        using that assms set_update_subset_insert [of sched ib new] by blast
      have u1: "\<forall>slot\<in>set (sched[ib := ?B\<lparr>slot_note := x\<rparr>]). \<forall>t\<in>set (times slot). valid_time t"
        for x
        using upd [of "?B\<lparr>slot_note := x\<rparr>"] vb by simp
      show ?thesis
      proof (cases "search_shift (times ?A) (times ?B) gap gap")
        case None
        with gap ia ib assms u1 show ?thesis
          by (simp add: optimize_finding_def Let_def)
      next
        case (Some candidate)
        from search_shift_Some [OF Some] obtain k where "candidate = shiftTimes (times ?B) k"
          by blast
        with shiftTimes_valid [OF vb] have "\<forall>t\<in>set candidate. valid_time t" by simp
        then have u2: "\<forall>slot\<in>set (sched[ib := ?B\<lparr>times := candidate, slot_note := x\<rparr>]).
            \<forall>t\<in>set (times slot). valid_time t" for x
          using upd [of "?B\<lparr>times := candidate, slot_note := x\<rparr>"] by simp
        from Some gap ia ib assms u1 u2 show ?thesis
          by (simp add: optimize_finding_def Let_def)
      qed
    qed
  qed
qed





subsection \<open>The frame of one finding\<close>

lemma optimize_finding_cases:
  "optimize_finding sched finding = sched \<or>
   (\<exists>ib slot. findIndex (\<lambda>slot. medication slot = snd (medications finding)) sched = Some ib \<and>
      medication slot = medication (sched ! ib) \<and>
      optimize_finding sched finding = sched[ib := slot])"
proof (cases "minHoursApart finding")
  case None
  then show ?thesis by (simp add: optimize_finding_def)
next
  case gap: (Some gap)
  show ?thesis
  proof (cases "findIndex (\<lambda>slot. medication slot = fst (medications finding)) sched")
    case None
    with gap show ?thesis by (simp add: optimize_finding_def)
  next
    case ia: (Some ia)
    show ?thesis
    proof (cases "findIndex (\<lambda>slot. medication slot = snd (medications finding)) sched")
      case None
      with gap ia show ?thesis by (simp add: optimize_finding_def)
    next
      case ib: (Some ib)
      let ?A = "sched ! ia" and ?B = "sched ! ib"
      have "optimize_finding sched finding = sched \<or>
        optimize_finding sched finding =
          sched[ib := ?B\<lparr>slot_note := Some (keep_note gap (medication ?A))\<rparr>] \<or>
        (\<exists>candidate. optimize_finding sched finding =
          sched[ib := ?B\<lparr>times := candidate,
                          slot_note := Some (shifted_note gap (medication ?A))\<rparr>]) \<or>
        optimize_finding sched finding =
          sched[ib := ?B\<lparr>slot_note := Some (unable_note (medication ?A))\<rparr>]"
      proof (cases "search_shift (times ?A) (times ?B) gap gap")
        case None
        with gap ia ib show ?thesis by (simp add: optimize_finding_def Let_def)
      next
        case (Some candidate)
        with gap ia ib show ?thesis by (auto simp: optimize_finding_def Let_def)
      qed
      then consider
        (same) "optimize_finding sched finding = sched" |
        (upd) slot where "optimize_finding sched finding = sched[ib := slot]"
          "medication slot = medication ?B"
        by (elim disjE exE) simp_all
      then show ?thesis
      proof cases
        case same
        then show ?thesis by simp
      next
        case upd
        with ib show ?thesis by blast
      qed
    qed
  qed
qed

lemma optimize_finding_length: "length (optimize_finding sched finding) = length sched"
  using optimize_finding_cases [of sched finding] by auto

lemma optimize_finding_names:
  "map medication (optimize_finding sched finding) = map medication sched"
proof -
  from optimize_finding_cases [of sched finding] show ?thesis
  proof
    assume "optimize_finding sched finding = sched"
    then show ?thesis by simp
  next
    assume "\<exists>ib slot. findIndex (\<lambda>slot. medication slot = snd (medications finding)) sched = Some ib \<and>
      medication slot = medication (sched ! ib) \<and> optimize_finding sched finding = sched[ib := slot]"
    then obtain ib slot where ib: "findIndex (\<lambda>slot. medication slot = snd (medications finding)) sched = Some ib"
      and m: "medication slot = medication (sched ! ib)"
      and u: "optimize_finding sched finding = sched[ib := slot]"
      by blast
    from ib have "ib < length sched" by (simp add: findIndex_first)
    with m show ?thesis unfolding u by (simp add: map_update list_update_same_conv)
  qed
qed

lemma optimize_finding_other:
  assumes "i < length sched"
    and "medication (sched ! i) \<noteq> snd (medications finding)"
  shows "optimize_finding sched finding ! i = sched ! i"
proof -
  from optimize_finding_cases [of sched finding] show ?thesis
  proof
    assume "optimize_finding sched finding = sched"
    then show ?thesis by simp
  next
    assume "\<exists>ib slot. findIndex (\<lambda>slot. medication slot = snd (medications finding)) sched = Some ib \<and>
      medication slot = medication (sched ! ib) \<and> optimize_finding sched finding = sched[ib := slot]"
    then obtain ib slot where ib: "findIndex (\<lambda>slot. medication slot = snd (medications finding)) sched = Some ib"
      and u: "optimize_finding sched finding = sched[ib := slot]"
      by blast
    from ib have "medication (sched ! ib) = snd (medications finding)" by (simp add: findIndex_first)
    with assms(2) have "i \<noteq> ib" by auto
    then show ?thesis unfolding u by simp
  qed
qed

lemma optimizeSchedule_other:
  assumes "i < length sched"
    and "\<forall>f\<in>set findings. medication (sched ! i) \<noteq> snd (medications f)"
  shows "optimizeSchedule sched findings ! i = sched ! i"
  using assms
proof (induction findings arbitrary: sched)
  case Nil
  then show ?case by (simp add: optimizeSchedule_def)
next
  case (Cons f fs)
  let ?next = "optimize_finding sched f"
  have same: "?next ! i = sched ! i"
    using Cons.prems by (intro optimize_finding_other) simp_all
  have len: "i < length ?next" using Cons.prems(1) by (simp add: optimize_finding_length)
  have "\<forall>g\<in>set fs. medication (?next ! i) \<noteq> snd (medications g)"
    using Cons.prems(2) same by simp
  from Cons.IH [OF len this] same show ?case by (simp add: optimizeSchedule_def)
qed

text \<open>
  C5. One finding leaves the schedule's length and medication names as they are and
  changes no slot whose medication name is neither of the finding's pair; a whole run of
  the optimizer changes no slot named by none of the findings.
\<close>

theorem optimize_finding_frame:
  "length (optimize_finding sched finding) = length sched \<and>
   map medication (optimize_finding sched finding) = map medication sched \<and>
   (\<forall>i<length sched.
      medication (sched ! i) \<noteq> fst (medications finding) \<and>
      medication (sched ! i) \<noteq> snd (medications finding) \<longrightarrow>
      optimize_finding sched finding ! i = sched ! i) \<and>
   (\<forall>i<length sched.
      (\<forall>f\<in>set findings. medication (sched ! i) \<noteq> fst (medications f) \<and>
                         medication (sched ! i) \<noteq> snd (medications f)) \<longrightarrow>
      optimizeSchedule sched findings ! i = sched ! i)"
  using optimize_finding_length [of sched finding] optimize_finding_names [of sched finding]
    optimize_finding_other [of _ sched finding] optimizeSchedule_other [of _ sched findings]
  by blast

theorem optimize_finding_frame_witness:
  "optimizeSchedule (buildInitialSchedule (request_medications scenario_frame))
     (detectInteractions (request_medications scenario_frame)) ! 2 =
   \<lparr>medication = ''aspirin'', times = [''08:00''], slot_note = None\<rparr> \<and>
   optimizeSchedule (buildInitialSchedule (request_medications scenario_frame))
     (detectInteractions (request_medications scenario_frame)) ! 1 \<noteq>
   buildInitialSchedule (request_medications scenario_frame) ! 1"
proof -
  let ?sched = "buildInitialSchedule (request_medications scenario_frame)"
  let ?found = "detectInteractions (request_medications scenario_frame)"
  have l: "2 < length ?sched" by code_simp
  have n: "\<forall>f\<in>set ?found. medication (?sched ! 2) \<noteq> fst (medications f) \<and>
                         medication (?sched ! 2) \<noteq> snd (medications f)"
    by code_simp
  have v: "?sched ! 2 = \<lparr>medication = ''aspirin'', times = [''08:00''], slot_note = None\<rparr>"
    by code_simp
  have c: "optimizeSchedule ?sched ?found ! 1 \<noteq> ?sched ! 1"
    by code_simp
  from optimize_finding_frame [of ?sched finding_C ?found] l n
  have "optimizeSchedule ?sched ?found ! 2 = ?sched ! 2" by blast
  with v c show ?thesis by simp
qed

subsection \<open>Every turn of the optimizer finds its slots\<close>

text \<open>
  A finding that is not separable, or whose \<open>minHoursApart\<close> is missing or 0, leaves
  the schedule as it is. In a run of \<open>analyzePrescription\<close> the schedule holds a slot for
  each name of each finding, with valid times, whatever findings were processed before.
\<close>

lemma optimize_finding_unset:
  assumes "\<not> canSeparateBySchedule finding \<or> minHoursApart finding = None \<or>
           minHoursApart finding = Some 0"
  shows "optimize_finding sched finding = sched"
  using assms by (auto simp: optimize_finding_def split: option.splits)

lemma detect_row_names:
  "f \<in> set (detect_row a rest) \<Longrightarrow>
   fst (medications f) = name a \<and> snd (medications f) \<in> name ` set rest"
  by (induction rest) (auto split: option.splits)

lemma detectInteractions_names:
  "f \<in> set (detectInteractions meds) \<Longrightarrow>
   fst (medications f) \<in> name ` set meds \<and> snd (medications f) \<in> name ` set meds"
proof (induction meds)
  case Nil
  then show ?case by simp
next
  case (Cons a rest)
  from Cons.prems consider "f \<in> set (detect_row a rest)" | "f \<in> set (detectInteractions rest)"
    by auto
  then show ?case
  proof cases
    case 1
    from detect_row_names [OF this] show ?thesis by auto
  next
    case 2
    from Cons.IH [OF this] show ?thesis by auto
  qed
qed

lemma findIndex_None: "findIndex p xs = None \<longleftrightarrow> (\<forall>x\<in>set xs. \<not> p x)"
  by (induction xs) auto

lemma first_slot_exists:
  assumes "n \<in> medication ` set sched"
  shows "\<exists>i. first_slot_named sched n i"
proof -
  from assms have "findIndex (\<lambda>slot. medication slot = n) sched \<noteq> None"
    by (auto simp: findIndex_None)
  then obtain i where "findIndex (\<lambda>slot. medication slot = n) sched = Some i" by blast
  then show ?thesis by (auto simp: findIndex_first first_slot_named_def)
qed

lemma optimizeSchedule_names:
  "map medication (optimizeSchedule sched findings) = map medication sched"
  by (induction findings arbitrary: sched)
     (simp_all add: optimizeSchedule_def optimize_finding_names)

lemma optimizeSchedule_valid:
  "\<forall>slot\<in>set sched. \<forall>t\<in>set (times slot). valid_time t \<Longrightarrow>
   \<forall>slot\<in>set (optimizeSchedule sched findings). \<forall>t\<in>set (times slot). valid_time t"
proof (induction findings arbitrary: sched)
  case Nil
  then show ?case by (simp add: optimizeSchedule_def)
next
  case (Cons f fs)
  from Cons.IH [OF optimize_finding_valid [OF Cons.prems, of f]]
  show ?case by (simp add: optimizeSchedule_def)
qed

lemma every_step_has_its_slots:
  fixes meds :: "PrescribedMedication list" and earlier :: "InteractionFinding list"
  assumes "f \<in> set (detectInteractions meds)"
  defines "sched \<equiv> optimizeSchedule (buildInitialSchedule meds) earlier"
  shows "\<exists>ia ib. first_slot_named sched (fst (medications f)) ia \<and>
           first_slot_named sched (snd (medications f)) ib \<and>
           (\<forall>t\<in>set (times (sched ! ia)). valid_time t) \<and>
           (\<forall>t\<in>set (times (sched ! ib)). valid_time t)"
proof -
  have names: "map medication sched = map name meds"
    by (simp add: sched_def optimizeSchedule_names buildInitialSchedule_def comp_def)
  then have img: "medication ` set sched = name ` set meds"
    by (metis list.set_map)
  have valid: "\<forall>slot\<in>set sched. \<forall>t\<in>set (times slot). valid_time t"
    unfolding sched_def by (rule optimizeSchedule_valid) (rule buildInitialSchedule_valid)
  from detectInteractions_names [OF assms(1)] img
  obtain ia ib where a: "first_slot_named sched (fst (medications f)) ia"
    and b: "first_slot_named sched (snd (medications f)) ib"
    using first_slot_exists by metis
  then have "ia < length sched" "ib < length sched" by (simp_all add: first_slot_named_def)
  with valid have "\<forall>t\<in>set (times (sched ! ia)). valid_time t"
    "\<forall>t\<in>set (times (sched ! ib)). valid_time t"
    using nth_mem by blast+
  with a b show ?thesis by blast
qed

subsection \<open>Detection\<close>

lemma toPairKey_swap: "toPairKey a b = toPairKey b a"
proof -
  have "sort [x, y] = sort [y, x]" for x y :: string
    by (cases "x \<le> y"; cases "y \<le> x") auto
  then show ?thesis by (simp add: toPairKey_def)
qed

lemma toLowerCase_char_idem: "toLowerCase_char (toLowerCase_char c) = toLowerCase_char c"
  by (simp add: toLowerCase_char_def)

lemma toLowerCase_idem: "toLowerCase (toLowerCase s) = toLowerCase s"
  by (simp add: toLowerCase_def toLowerCase_char_idem)

lemma pair_findings_swap: "pair_findings a b = pair_findings b a"
  by (simp add: pair_findings_def findings_modulo_order_def finding_modulo_order_def
        toPairKey_swap [of "name a" "name b"] insert_commute split: option.splits)

lemma detect_row_sum:
  "findings_modulo_order (detect_row a rest) = (\<Sum>b\<in>#mset rest. pair_findings a b)"
  by (induction rest)
     (simp_all add: pair_findings_def findings_modulo_order_def split: option.splits)

lemma findings_modulo_order_append:
  "findings_modulo_order (xs @ ys) = findings_modulo_order xs + findings_modulo_order ys"
  by (simp add: findings_modulo_order_def)

lemma detect_Cons:
  "findings_modulo_order (detectInteractions (a # rest)) =
     (\<Sum>b\<in>#mset rest. pair_findings a b) + findings_modulo_order (detectInteractions rest)"
  by (simp add: findings_modulo_order_append detect_row_sum)

lemma detect_insert:
  "findings_modulo_order (detectInteractions (us @ x # vs)) =
     (\<Sum>b\<in>#mset (us @ vs). pair_findings x b) +
     findings_modulo_order (detectInteractions (us @ vs))"
proof (induction us)
  case Nil
  show ?case using detect_Cons [of x vs] by simp
next
  case (Cons a us)
  have "findings_modulo_order (detectInteractions ((a # us) @ x # vs)) =
      (\<Sum>b\<in>#mset (us @ x # vs). pair_findings a b) +
      findings_modulo_order (detectInteractions (us @ x # vs))"
    using detect_Cons [of a "us @ x # vs"] by simp
  also have "(\<Sum>b\<in>#mset (us @ x # vs). pair_findings a b) =
      pair_findings x a + (\<Sum>b\<in>#mset (us @ vs). pair_findings a b)"
    by (simp add: pair_findings_swap [of a x])
  finally show ?case
    using Cons.IH detect_Cons [of a "us @ vs"] by (simp add: ac_simps)
qed

lemma detect_permutation:
  "mset xs = mset ys \<Longrightarrow>
   findings_modulo_order (detectInteractions xs) = findings_modulo_order (detectInteractions ys)"
proof (induction xs arbitrary: ys)
  case Nil
  then show ?case by simp
next
  case (Cons x xs)
  from Cons.prems have "x \<in> set ys" by (metis list.set_intros(1) mset_eq_setD)
  then obtain us vs where ys: "ys = us @ x # vs" by (meson split_list)
  with Cons.prems have m: "mset xs = mset (us @ vs)" by simp
  from Cons.IH [OF m] have ih: "findings_modulo_order (detectInteractions xs) =
      findings_modulo_order (detectInteractions (us @ vs))" .
  show ?case
    unfolding ys detect_insert detect_Cons ih m ..
qed

text \<open>
  C8. The pair key does not change when the two names are swapped, nor when a name is
  replaced by one that differs in letter case only (one with the same lower-case form,
  the lower-case form itself among them). For medication lists that are permutations of
  each other, detection yields the same findings up to their order in the list and the
  order of the two names within a pair: same names, severity, reason, separability, gap
  and alternatives.
\<close>

theorem detection_order_independent:
  "toPairKey a b = toPairKey b a \<and>
   (toLowerCase a = toLowerCase a' \<and> toLowerCase b = toLowerCase b' \<longrightarrow>
      toPairKey a b = toPairKey a' b') \<and>
   toPairKey (toLowerCase a) (toLowerCase b) = toPairKey a b \<and>
   (mset xs = mset ys \<longrightarrow>
      findings_modulo_order (detectInteractions xs) =
      findings_modulo_order (detectInteractions ys))"
  using toPairKey_swap [of a b] detect_permutation [of xs ys]
  by (simp add: toPairKey_def toLowerCase_idem)

theorem detection_order_independent_witness:
  "toPairKey ''Aspirin'' ''Warfarin'' = toPairKey ''warfarin'' ''ASPIRIN'' \<and>
   map medications (detectInteractions [med ''aspirin'' Once, med ''warfarin'' Once]) =
     [(''aspirin'', ''warfarin'')] \<and>
   map medications (detectInteractions [med ''warfarin'' Once, med ''aspirin'' Once]) =
     [(''warfarin'', ''aspirin'')] \<and>
   findings_modulo_order (detectInteractions [med ''aspirin'' Once, med ''warfarin'' Once]) =
   findings_modulo_order (detectInteractions [med ''warfarin'' Once, med ''aspirin'' Once])"
proof -
  have lc: "toLowerCase ''Aspirin'' = toLowerCase ''ASPIRIN''"
    "toLowerCase ''Warfarin'' = toLowerCase ''warfarin''"
    by code_simp+
  have perm: "mset [med ''aspirin'' Once, med ''warfarin'' Once] =
              mset [med ''warfarin'' Once, med ''aspirin'' Once]"
    by simp
  have m1: "map medications (detectInteractions [med ''aspirin'' Once, med ''warfarin'' Once]) =
     [(''aspirin'', ''warfarin'')]"
    by code_simp
  have m2: "map medications (detectInteractions [med ''warfarin'' Once, med ''aspirin'' Once]) =
     [(''warfarin'', ''aspirin'')]"
    by code_simp
  from detection_order_independent
         [of "''Aspirin''" "''Warfarin''" "''ASPIRIN''" "''warfarin''"
             "[med ''aspirin'' Once, med ''warfarin'' Once]"
             "[med ''warfarin'' Once, med ''aspirin'' Once]"] lc perm
  have k1: "toPairKey ''Aspirin'' ''Warfarin'' = toPairKey ''ASPIRIN'' ''warfarin''"
    and f: "findings_modulo_order (detectInteractions [med ''aspirin'' Once, med ''warfarin'' Once]) =
       findings_modulo_order (detectInteractions [med ''warfarin'' Once, med ''aspirin'' Once])"
    by blast+
  from detection_order_independent [of "''ASPIRIN''" "''warfarin''"]
  have k2: "toPairKey ''ASPIRIN'' ''warfarin'' = toPairKey ''warfarin'' ''ASPIRIN''"
    by blast
  from k1 k2 f m1 m2 show ?thesis by simp
qed

end
